theory Spec2Isabelle
  imports Complex_Main "HOL-Library.Sublist"
begin

section \<open>The Python fragment of the notebook\<close>

text \<open>
  The repository is one Jupyter notebook, \<^verbatim>\<open>1-TMVA-Classification-py\<close>. Its code
  cells are straight-line Python: imports, assignments, attribute chains, calls with
  positional arguments, string and float literals, and one IPython line magic. The
  abstract syntax below covers that fragment, together with \<open>+\<close>, \<open>if\<close> and
  \<open>try\<close>/\<open>except\<close>, so that "the notebook transforms no value", "checks nothing" and
  "intercepts nothing" are statements about the notebook and not about the syntax.
\<close>

datatype expr =
    Str "string list"      \<comment> \<open>adjacent string literals, joined by the parser\<close>
  | Num rat                \<comment> \<open>a float literal\<close>
  | Name string
  | Attr expr string       \<comment> \<open>\<^verbatim>\<open>e.name\<close>\<close>
  | Call expr "expr list"  \<comment> \<open>\<^verbatim>\<open>f(a, b, ...)\<close>\<close>
  | Add expr expr          \<comment> \<open>\<^verbatim>\<open>a + b\<close>\<close>

datatype stmt =
    Import string               \<comment> \<open>\<^verbatim>\<open>import m\<close>\<close>
  | ImportFrom string string    \<comment> \<open>\<^verbatim>\<open>from m import n\<close>\<close>
  | Assign string expr          \<comment> \<open>\<^verbatim>\<open>x = e\<close>\<close>
  | Expr expr                   \<comment> \<open>an expression statement\<close>
  | Magic string string         \<comment> \<open>an IPython line magic, \<^verbatim>\<open>%name arg\<close>\<close>
  | If expr "stmt list" "stmt list"
  | Try "stmt list" "stmt list" \<comment> \<open>\<^verbatim>\<open>try: ... except: ...\<close>\<close>

datatype cell =
    Markdown
  | Code "stmt list"
  | Raw "stmt list"   \<comment> \<open>a raw cell: its text is never executed\<close>

section \<open>Values, the toolkit, and errors\<close>

text \<open>
  ROOT and TMVA are outside the repository. A value is a Python constant, a module, an
  opaque object handed out by the toolkit, or a member of a value (\<^verbatim>\<open>ROOT.TFile\<close>,
  \<^verbatim>\<open>ROOT.TMVA.Types.kBDT\<close>, \<^verbatim>\<open>loader.AddVariable\<close>). Everything the notebook asks
  of its environment is a request; the toolkit is a parameter that answers a request
  in its current state with a value or an exception, and moves to a new state.
\<close>

datatype val =
    NoneV
  | StrV string
  | NumV rat
  | Module string
  | Obj nat
  | Member val string

datatype pyerror =
    NameError string
  | TypeError
  | Raised string   \<comment> \<open>any exception raised by the toolkit\<close>

datatype tcall =
    ImportModule string
  | ImportName string string
  | Invoke val string "val list"   \<comment> \<open>receiver, member name, arguments\<close>
  | LineMagic string string

type_synonym event = "tcall \<times> (pyerror + val)"

type_synonym 'w toolkit = "tcall \<Rightarrow> 'w \<Rightarrow> (pyerror + val) \<times> 'w"

type_synonym env = "string \<rightharpoonup> val"

type_synonym 'w st = "event list \<times> 'w"

definition ask :: "'w toolkit \<Rightarrow> tcall \<Rightarrow> 'w st \<Rightarrow> (pyerror + val) \<times> 'w st" where
  "ask tk c s = (case s of (tr, w) \<Rightarrow> (case tk c w of (r, w') \<Rightarrow> (r, (tr @ [(c, r)], w'))))"

section \<open>Evaluation\<close>

text \<open>
  Python evaluates the callee, then the arguments from left to right, then calls. A
  call of \<^verbatim>\<open>v.name(args)\<close> is the request \<open>Invoke v name args\<close>; a call of any
  other value goes to its \<^verbatim>\<open>__call__\<close>. Member lookup is resolved by the toolkit's
  binding layer when the member is called.
\<close>

fun eval :: "'w toolkit \<Rightarrow> env \<Rightarrow> expr \<Rightarrow> 'w st \<Rightarrow> (pyerror + val) \<times> 'w st"
  and eval_list :: "'w toolkit \<Rightarrow> env \<Rightarrow> expr list \<Rightarrow> 'w st \<Rightarrow> (pyerror + val list) \<times> 'w st"
where
  "eval tk env (Str ps) s = (Inr (StrV (concat ps)), s)"
| "eval tk env (Num r) s = (Inr (NumV r), s)"
| "eval tk env (Name x) s =
     (case env x of None \<Rightarrow> (Inl (NameError x), s) | Some v \<Rightarrow> (Inr v, s))"
| "eval tk env (Attr e n) s =
     (case eval tk env e s of
        (Inl err, s') \<Rightarrow> (Inl err, s')
      | (Inr v, s') \<Rightarrow> (Inr (Member v n), s'))"
| "eval tk env (Call f args) s =
     (case eval tk env f s of
        (Inl err, s') \<Rightarrow> (Inl err, s')
      | (Inr fv, s') \<Rightarrow>
          (case eval_list tk env args s' of
             (Inl err, s'') \<Rightarrow> (Inl err, s'')
           | (Inr vs, s'') \<Rightarrow>
               (case fv of
                  Member recv n \<Rightarrow> ask tk (Invoke recv n vs) s''
                | _ \<Rightarrow> ask tk (Invoke fv ''__call__'' vs) s'')))"
| "eval tk env (Add a b) s =
     (case eval tk env a s of
        (Inl err, s') \<Rightarrow> (Inl err, s')
      | (Inr va, s') \<Rightarrow>
          (case eval tk env b s' of
             (Inl err, s'') \<Rightarrow> (Inl err, s'')
           | (Inr vb, s'') \<Rightarrow>
               (case (va, vb) of
                  (StrV x, StrV y) \<Rightarrow> (Inr (StrV (x @ y)), s'')
                | (NumV x, NumV y) \<Rightarrow> (Inr (NumV (x + y)), s'')
                | _ \<Rightarrow> (Inl TypeError, s''))))"
| "eval_list tk env [] s = (Inr [], s)"
| "eval_list tk env (e # es) s =
     (case eval tk env e s of
        (Inl err, s') \<Rightarrow> (Inl err, s')
      | (Inr v, s') \<Rightarrow>
          (case eval_list tk env es s' of
             (Inl err, s'') \<Rightarrow> (Inl err, s'')
           | (Inr vs, s'') \<Rightarrow> (Inr (v # vs), s'')))"

text \<open>Truth value of a condition: constants decide themselves, anything else is asked.\<close>

definition truth :: "'w toolkit \<Rightarrow> val \<Rightarrow> 'w st \<Rightarrow> (pyerror + bool) \<times> 'w st" where
  "truth tk v s =
     (case v of
        NoneV \<Rightarrow> (Inr False, s)
      | StrV x \<Rightarrow> (Inr (x \<noteq> []), s)
      | NumV r \<Rightarrow> (Inr (r \<noteq> 0), s)
      | _ \<Rightarrow>
          (case ask tk (Invoke v ''__bool__'' []) s of
             (Inl err, s') \<Rightarrow> (Inl err, s')
           | (Inr b, s') \<Rightarrow> (Inr (b \<noteq> NoneV \<and> b \<noteq> NumV 0), s')))"

text \<open>
  A statement returns \<open>Some err\<close> when it raises. A block stops at the first statement
  that raises; \<open>Try\<close> is the only statement that swallows an exception.
\<close>

fun exec :: "'w toolkit \<Rightarrow> stmt \<Rightarrow> env \<times> 'w st \<Rightarrow> pyerror option \<times> env \<times> 'w st"
  and exec_block :: "'w toolkit \<Rightarrow> stmt list \<Rightarrow> env \<times> 'w st \<Rightarrow> pyerror option \<times> env \<times> 'w st"
where
  "exec tk (Import m) (env, s) =
     (case ask tk (ImportModule m) s of
        (Inl err, s') \<Rightarrow> (Some err, env, s')
      | (Inr _, s') \<Rightarrow> (None, env(m \<mapsto> Module m), s'))"
| "exec tk (ImportFrom m n) (env, s) =
     (case ask tk (ImportName m n) s of
        (Inl err, s') \<Rightarrow> (Some err, env, s')
      | (Inr _, s') \<Rightarrow> (None, env(n \<mapsto> Member (Module m) n), s'))"
| "exec tk (Assign x e) (env, s) =
     (case eval tk env e s of
        (Inl err, s') \<Rightarrow> (Some err, env, s')
      | (Inr v, s') \<Rightarrow> (None, env(x \<mapsto> v), s'))"
| "exec tk (Expr e) (env, s) =
     (case eval tk env e s of
        (Inl err, s') \<Rightarrow> (Some err, env, s')
      | (Inr _, s') \<Rightarrow> (None, env, s'))"
| "exec tk (Magic name arg) (env, s) =
     (case ask tk (LineMagic name arg) s of
        (Inl err, s') \<Rightarrow> (Some err, env, s')
      | (Inr _, s') \<Rightarrow> (None, env, s'))"
| "exec tk (If c yes no) (env, s) =
     (case eval tk env c s of
        (Inl err, s') \<Rightarrow> (Some err, env, s')
      | (Inr v, s') \<Rightarrow>
          (case truth tk v s' of
             (Inl err, s'') \<Rightarrow> (Some err, env, s'')
           | (Inr b, s'') \<Rightarrow> exec_block tk (if b then yes else no) (env, s'')))"
| "exec tk (Try body handler) (env, s) =
     (case exec_block tk body (env, s) of
        (Some _, env', s') \<Rightarrow> exec_block tk handler (env', s')
      | (None, env', s') \<Rightarrow> (None, env', s'))"
| "exec_block tk [] (env, s) = (None, env, s)"
| "exec_block tk (c # cs) (env, s) =
     (case exec tk c (env, s) of
        (Some err, env', s') \<Rightarrow> (Some err, env', s')
      | (None, env', s') \<Rightarrow> exec_block tk cs (env', s'))"

section \<open>The notebook\<close>

text \<open>
  The cells in file order. Markdown text and comments are left out; every code and raw
  cell is transcribed statement by statement. A string written as two adjacent literals
  keeps its two pieces.
\<close>

definition notebook :: "cell list" where
  "notebook =
   [ Markdown,
     Code
      [ Import ''ROOT'',
        ImportFrom ''ROOT'' ''TMVA'' ],
     Markdown,
     Code
      [ Expr (Call (Attr (Attr (Attr (Name ''ROOT'') ''TMVA'') ''Tools'') ''Instance'') []),
        Expr (Call (Attr (Attr (Name ''TMVA'') ''PyMethodBase'') ''PyInitialize'') []),
        Assign ''outputFile''
          (Call (Attr (Attr (Name ''ROOT'') ''TFile'') ''Open'')
             [Str [''ClassificationOutput.root''], Str [''RECREATE'']]),
        Assign ''factory''
          (Call (Attr (Attr (Name ''ROOT'') ''TMVA'') ''Factory'')
             [Str [''TMVA_Classification''], Name ''outputFile'',
              Str [''!V:ROC:!Silent:Color:!DrawProgressBar:AnalysisType=Classification'']]) ],
     Markdown,
     Code
      [ Assign ''inputFileName'' (Str [''data/tmva_data.root'']),
        Assign ''inputFile''
          (Call (Attr (Attr (Name ''ROOT'') ''TFile'') ''Open'') [Name ''inputFileName'']),
        Assign ''signalTree'' (Call (Attr (Name ''inputFile'') ''Get'') [Str [''sig_tree'']]),
        Assign ''backgroundTree'' (Call (Attr (Name ''inputFile'') ''Get'') [Str [''bkg_tree'']]) ],
     Markdown,
     Code
      [ Expr (Call (Attr (Name ''signalTree'') ''Print'') []) ],
     Markdown,
     Code
      [ Assign ''loader''
          (Call (Attr (Attr (Name ''ROOT'') ''TMVA'') ''DataLoader'') [Str [''dataset'']]),
        Assign ''signalWeight'' (Num 1),
        Assign ''backgroundWeight'' (Num 1),
        Expr (Call (Attr (Name ''loader'') ''AddSignalTree'')
                [Name ''signalTree'', Name ''signalWeight'']),
        Expr (Call (Attr (Name ''loader'') ''AddBackgroundTree'')
                [Name ''backgroundTree'', Name ''backgroundWeight'']),
        Expr (Call (Attr (Name ''loader'') ''AddVariable'') [Str [''m_jj'']]),
        Expr (Call (Attr (Name ''loader'') ''AddVariable'') [Str [''m_jjj'']]),
        Expr (Call (Attr (Name ''loader'') ''AddVariable'') [Str [''m_lv'']]),
        Expr (Call (Attr (Name ''loader'') ''AddVariable'') [Str [''m_jlv'']]),
        Expr (Call (Attr (Name ''loader'') ''AddVariable'') [Str [''m_bb'']]),
        Expr (Call (Attr (Name ''loader'') ''AddVariable'') [Str [''m_wbb'']]),
        Expr (Call (Attr (Name ''loader'') ''AddVariable'') [Str [''m_wwbb'']]) ],
     Markdown,
     Code
      [ Assign ''mycuts'' (Call (Attr (Name ''ROOT'') ''TCut'') [Str ['''']]),
        Assign ''mycutb'' (Call (Attr (Name ''ROOT'') ''TCut'') [Str ['''']]),
        Expr (Call (Attr (Name ''loader'') ''PrepareTrainingAndTestTree'')
                [Name ''mycuts'', Name ''mycutb'',
                 Str [''nTrain_Signal=7000:nTrain_Background=7000:SplitMode=Random:'',
                      ''NormMode=NumEvents:!V'']]) ],
     Markdown,
     Code
      [ Expr (Call (Attr (Name ''factory'') ''BookMethod'')
                [Name ''loader'',
                 Attr (Attr (Attr (Name ''ROOT'') ''TMVA'') ''Types'') ''kBDT'',
                 Str [''BDT''],
                 Str [''!V:NTrees=200:MinNodeSize=2.5%:MaxDepth=2:BoostType=AdaBoost:AdaBoostBeta=0.5:UseBaggedBoost:'',
                      ''BaggedSampleFraction=0.5:SeparationType=GiniIndex:nCuts=20'']]),
        Expr (Call (Attr (Name ''factory'') ''BookMethod'')
                [Name ''loader'',
                 Attr (Attr (Attr (Name ''ROOT'') ''TMVA'') ''Types'') ''kMLP'',
                 Str [''MLP''],
                 Str [''!H:!V:NeuronType=tanh:VarTransform=N:NCycles=100:HiddenLayers=N+5:TestRate=5:!UseRegulator'']]) ],
     Markdown,
     Raw
      [ Expr (Call (Attr (Name ''factory'') ''BookMethod'')
                [Name ''loader'',
                 Attr (Attr (Attr (Name ''ROOT'') ''TMVA'') ''Types'') ''kPyGTB'',
                 Str [''PyGTB''],
                 Str [''H:!V:VarTransform=G:NEstimators=400:LearningRate=0.1:'',
                      ''MaxDepth=3'']]),
        Expr (Call (Attr (Name ''factory'') ''BookMethod'')
                [Name ''loader'',
                 Attr (Attr (Attr (Name ''ROOT'') ''TMVA'') ''Types'') ''kPyRandomForest'',
                 Str [''PyRandomForest''],
                 Str [''!V:VarTransform=G:NEstimators=400:'',
                      ''Criterion=gini:MaxFeatures=auto:MaxDepth=6:MinSamplesLeaf=3:MinWeightFractionLeaf=0:'',
                      ''Bootstrap=kTRUE'']]),
        Expr (Call (Attr (Name ''factory'') ''BookMethod'')
                [Name ''loader'',
                 Attr (Attr (Attr (Name ''ROOT'') ''TMVA'') ''Types'') ''kPyAdaBoost'',
                 Str [''PyAdaBoost''],
                 Str [''!V:VarTransform=G:NEstimators=400'']]) ],
     Markdown,
     Code
      [ Expr (Call (Attr (Name ''factory'') ''TrainAllMethods'') []) ],
     Markdown,
     Code
      [ Expr (Call (Attr (Name ''factory'') ''TestAllMethods'') []) ],
     Markdown,
     Code
      [ Expr (Call (Attr (Name ''factory'') ''EvaluateAllMethods'') []) ],
     Markdown,
     Code
      [ Magic ''jsroot'' ''on'' ],
     Code
      [ Assign ''c1'' (Call (Attr (Name ''factory'') ''GetROCCurve'') [Name ''loader'']),
        Expr (Call (Attr (Name ''c1'') ''Draw'') []) ],
     Markdown,
     Code
      [ Expr (Call (Attr (Name ''outputFile'') ''Close'') []) ],
     Code [] ]"

text \<open>Only code cells run, in file order, and a run stops at the first exception.\<close>

fun executed :: "cell list \<Rightarrow> stmt list" where
  "executed [] = []"
| "executed (Code body # cells) = body @ executed cells"
| "executed (_ # cells) = executed cells"

definition run_notebook :: "'w toolkit \<Rightarrow> 'w \<Rightarrow> pyerror option \<times> event list \<times> 'w" where
  "run_notebook tk w =
     (case exec_block tk (executed notebook) (Map.empty, ([], w)) of
        (res, env, (tr, w')) \<Rightarrow> (res, tr, w'))"


section \<open>Observations on a run\<close>


fun args_of :: "tcall \<Rightarrow> val list" where
  "args_of (Invoke recv n args) = args"
| "args_of _ = []"

text \<open>\<open>returned hist p v\<close>: some request in \<open>hist\<close> that satisfies \<open>p\<close> was answered with \<open>v\<close>.\<close>

definition returned :: "event list \<Rightarrow> (tcall \<Rightarrow> bool) \<Rightarrow> val \<Rightarrow> bool" where
  "returned hist p v = list_ex (\<lambda>ev. snd ev = Inr v \<and> p (fst ev)) hist"

text \<open>
  \<open>at_each_call Q hist tr\<close>: whenever the run makes a request, \<open>Q\<close> holds of the events
  before it (most recent first) and the request.
\<close>

fun at_each_call :: "(event list \<Rightarrow> tcall \<Rightarrow> bool) \<Rightarrow> event list \<Rightarrow> event list \<Rightarrow> bool" where
  "at_each_call Q hist [] = True"
| "at_each_call Q hist (ev # evs) = (Q hist (fst ev) \<and> at_each_call Q (ev # hist) evs)"

definition raised :: "event list \<Rightarrow> pyerror list" where
  "raised tr = List.map_filter (\<lambda>ev. case snd ev of Inl err \<Rightarrow> Some err | Inr _ \<Rightarrow> None) tr"

subsection \<open>Names of the toolkit\<close>

definition TMVA :: val where
  "TMVA = Member (Module ''ROOT'') ''TMVA''"

definition TFile :: val where
  "TFile = Member (Module ''ROOT'') ''TFile''"

definition Types :: val where
  "Types = Member (Member (Module ''ROOT'') ''TMVA'') ''Types''"

definition open_output :: tcall where
  "open_output = Invoke TFile ''Open'' [StrV ''ClassificationOutput.root'', StrV ''RECREATE'']"

definition open_input :: tcall where
  "open_input = Invoke TFile ''Open'' [StrV ''data/tmva_data.root'']"

fun constructs :: "string \<Rightarrow> tcall \<Rightarrow> bool" where
  "constructs cls (Invoke recv n args) = (n = cls \<and> recv = TMVA)"
| "constructs cls _ = False"

fun gets :: "string \<Rightarrow> tcall \<Rightarrow> bool" where
  "gets key (Invoke recv n args) = (n = ''Get'' \<and> args = [StrV key])"
| "gets key _ = False"

fun empty_cut :: "tcall \<Rightarrow> bool" where
  "empty_cut (Invoke recv n args) = (n = ''TCut'' \<and> recv = Module ''ROOT'' \<and> args = [StrV []])"
| "empty_cut _ = False"

text \<open>An option string is colon-delimited; its settings are the pieces between colons.\<close>

fun split_on :: "char \<Rightarrow> string \<Rightarrow> string list" where
  "split_on d [] = [[]]"
| "split_on d (c # cs) =
     (if c = d then [] # split_on d cs
      else (case split_on d cs of [] \<Rightarrow> [[c]] | x # xs \<Rightarrow> (c # x) # xs))"

fun has_settings :: "string list \<Rightarrow> val \<Rightarrow> bool" where
  "has_settings req (StrV opt) = (set req \<subseteq> set (split_on CHR '':'' opt))"
| "has_settings req _ = False"

subsection \<open>The order of the steps\<close>

datatype step = Init | Input | Register | Partition | Book | Train | Test | Evaluate | Plot

fun step_of :: "tcall \<Rightarrow> step option" where
  "step_of (Invoke recv n args) =
     (if n = ''Instance'' \<and> recv = Member TMVA ''Tools'' then Some Init
      else if n = ''PyInitialize'' \<and> recv = Member TMVA ''PyMethodBase'' then Some Init
      else if Invoke recv n args = open_input then Some Input
      else if n = ''Get'' then Some Input
      else if n = ''AddVariable'' then Some Register
      else if n = ''PrepareTrainingAndTestTree'' then Some Partition
      else if n = ''BookMethod'' then Some Book
      else if n = ''TrainAllMethods'' then Some Train
      else if n = ''TestAllMethods'' then Some Test
      else if n = ''EvaluateAllMethods'' then Some Evaluate
      else if n = ''GetROCCurve'' then Some Plot
      else None)"
| "step_of _ = None"

fun rank :: "step \<Rightarrow> nat" where
  "rank Init = 0"
| "rank Input = 1"
| "rank Register = 2"
| "rank Partition = 3"
| "rank Book = 4"
| "rank Train = 5"
| "rank Test = 6"
| "rank Evaluate = 7"
| "rank Plot = 8"

definition steps :: "event list \<Rightarrow> step list" where
  "steps tr = List.map_filter (\<lambda>ev. step_of (fst ev)) tr"

subsection \<open>Bookings\<close>

fun book_args :: "tcall \<Rightarrow> val list option" where
  "book_args (Invoke recv n args) = (if n = ''BookMethod'' then Some args else None)"
| "book_args _ = None"

definition bookings :: "event list \<Rightarrow> val list list" where
  "bookings tr = List.map_filter (\<lambda>ev. book_args (fst ev)) tr"

fun on_factory :: "event list \<Rightarrow> tcall \<Rightarrow> bool" where
  "on_factory hist (Invoke recv n args) =
     (if n = ''BookMethod'' then returned hist (constructs ''Factory'') recv else True)"
| "on_factory hist _ = True"

text \<open>The method name a statement books, read off the source text.\<close>

fun booked_name :: "stmt \<Rightarrow> string option" where
  "booked_name (Expr (Call (Attr f n) [loader, ty, Str ps, opts])) =
     (if n = ''BookMethod'' then Some (concat ps) else None)"
| "booked_name _ = None"

fun raw_cells :: "cell list \<Rightarrow> stmt list" where
  "raw_cells [] = []"
| "raw_cells (Raw body # cells) = body @ raw_cells cells"
| "raw_cells (_ # cells) = raw_cells cells"

fun named :: "string \<Rightarrow> val list \<Rightarrow> bool" where
  "named nm [loader, ty, name, opts] = (name = StrV nm)"
| "named nm _ = False"

fun nonempty_options :: "val list \<Rightarrow> bool" where
  "nonempty_options [loader, ty, name, StrV opts] = (opts \<noteq> [])"
| "nonempty_options _ = False"

fun bdt_settings :: "val list \<Rightarrow> bool" where
  "bdt_settings [loader, ty, name, opts] =
     (if name = StrV ''BDT''
      then has_settings [''!V'', ''NTrees=200'', ''MaxDepth=2'', ''BoostType=AdaBoost''] opts
      else True)"
| "bdt_settings _ = False"

subsection \<open>What flows into a request\<close>

fun lits :: "expr \<Rightarrow> val list" where
  "lits (Str ps) = [StrV (concat ps)]"
| "lits (Num q) = [NumV q]"
| "lits (Name x) = []"
| "lits (Attr e n) = lits e"
| "lits (Call f args) = lits f @ concat (map lits args)"
| "lits (Add a b) = lits a @ lits b"

fun stmt_lits :: "stmt \<Rightarrow> val list" where
  "stmt_lits (Assign x e) = lits e"
| "stmt_lits (Expr e) = lits e"
| "stmt_lits (If c yes no) = lits c @ concat (map stmt_lits yes) @ concat (map stmt_lits no)"
| "stmt_lits (Try body handler) = concat (map stmt_lits body) @ concat (map stmt_lits handler)"
| "stmt_lits _ = []"

definition source_literal :: "val \<Rightarrow> bool" where
  "source_literal v \<longleftrightarrow> v \<in> set (concat (map stmt_lits (executed notebook)))"

fun method_type :: "val \<Rightarrow> bool" where
  "method_type (Member t k) = (t = Types)"
| "method_type _ = False"

text \<open>
  \<open>passes ok hist c\<close>: every argument of the request \<open>c\<close> is acceptable to \<open>ok\<close> or is
  the answer to an earlier request.
\<close>

definition passes :: "(val \<Rightarrow> bool) \<Rightarrow> event list \<Rightarrow> tcall \<Rightarrow> bool" where
  "passes ok hist c = list_all (\<lambda>a. ok a \<or> returned hist (\<lambda>_. True) a) (args_of c)"

fun adds :: "expr \<Rightarrow> bool" where
  "adds (Add a b) = True"
| "adds (Attr e n) = adds e"
| "adds (Call f args) = (adds f \<or> list_ex adds args)"
| "adds _ = False"

fun transforms :: "stmt \<Rightarrow> bool" where
  "transforms (Assign x e) = adds e"
| "transforms (Expr e) = adds e"
| "transforms (If c yes no) = (adds c \<or> list_ex transforms yes \<or> list_ex transforms no)"
| "transforms (Try body handler) = (list_ex transforms body \<or> list_ex transforms handler)"
| "transforms _ = False"

fun assigns :: "stmt \<Rightarrow> string list" where
  "assigns (Import m) = [m]"
| "assigns (ImportFrom m n) = [n]"
| "assigns (Assign x e) = [x]"
| "assigns (If c yes no) = concat (map assigns yes) @ concat (map assigns no)"
| "assigns (Try body handler) = concat (map assigns body) @ concat (map assigns handler)"
| "assigns _ = []"

subsection \<open>Checks and handlers\<close>

fun intercepts :: "stmt \<Rightarrow> bool" where
  "intercepts (Try body handler) = True"
| "intercepts (If c yes no) = (list_ex intercepts yes \<or> list_ex intercepts no)"
| "intercepts _ = False"

fun checks :: "stmt \<Rightarrow> bool" where
  "checks (If c yes no) = True"
| "checks (Try body handler) = (list_ex checks body \<or> list_ex checks handler)"
| "checks _ = False"

subsection \<open>Partitioning\<close>

fun partition_args :: "event list \<Rightarrow> tcall \<Rightarrow> bool" where
  "partition_args hist (Invoke recv n args) =
     (if n = ''PrepareTrainingAndTestTree''
      then (case args of
              [sigcut, bkgcut, opts] \<Rightarrow>
                returned hist empty_cut sigcut \<and> returned hist empty_cut bkgcut \<and>
                has_settings [''nTrain_Signal=7000'', ''nTrain_Background=7000'',
                              ''SplitMode=Random'', ''NormMode=NumEvents''] opts
            | _ \<Rightarrow> False)
      else True)"
| "partition_args hist _ = True"

fun around_partition :: "tcall \<Rightarrow> string option" where
  "around_partition (Invoke recv n args) =
     (if n = ''AddVariable'' \<or> n = ''PrepareTrainingAndTestTree'' \<or> n = ''BookMethod''
      then Some n else None)"
| "around_partition _ = None"

definition partition_order :: "event list \<Rightarrow> string list" where
  "partition_order tr = List.map_filter (\<lambda>ev. around_partition (fst ev)) tr"

subsection \<open>The output file\<close>








subsection \<open>The input file and its trees\<close>



fun tree_use :: "event list \<Rightarrow> tcall \<Rightarrow> bool" where
  "tree_use hist (Invoke recv n args) =
     (if n = ''AddSignalTree'' then
        (case args of
           [tree, weight] \<Rightarrow>
             returned hist (gets ''sig_tree'') tree \<and> weight = NumV 1 \<and>
             returned hist (constructs ''DataLoader'') recv
         | _ \<Rightarrow> False)
      else if n = ''AddBackgroundTree'' then
        (case args of
           [tree, weight] \<Rightarrow>
             returned hist (gets ''bkg_tree'') tree \<and> weight = NumV 1 \<and>
             returned hist (constructs ''DataLoader'') recv
         | _ \<Rightarrow> False)
      else True)"
| "tree_use hist _ = True"

text \<open>A plain variable name: letters, digits and underscores, nothing to evaluate.\<close>

definition plain_name :: "string \<Rightarrow> bool" where
  "plain_name s \<longleftrightarrow> s \<noteq> [] \<and>
     list_all (\<lambda>c. c \<in> set ''abcdefghijklmnopqrstuvwxyzABCDEFGHIJKLMNOPQRSTUVWXYZ0123456789_'') s"

fun variable_args :: "event list \<Rightarrow> tcall \<Rightarrow> bool" where
  "variable_args hist (Invoke recv n args) =
     (if n = ''AddVariable'' then
        (case args of
           [StrV name] \<Rightarrow> plain_name name \<and> returned hist (constructs ''DataLoader'') recv
         | _ \<Rightarrow> False)
      else True)"
| "variable_args hist _ = True"

fun registration :: "tcall \<Rightarrow> (string \<times> val list) option" where
  "registration (Invoke recv n args) =
     (if n = ''AddSignalTree'' \<or> n = ''AddBackgroundTree'' then Some (n, drop 1 args)
      else if n = ''AddVariable'' then Some (n, args)
      else None)"
| "registration _ = None"

definition registrations :: "event list \<Rightarrow> (string \<times> val list) list" where
  "registrations tr = List.map_filter (\<lambda>ev. registration (fst ev)) tr"

subsection \<open>Sample toolkits\<close>

text \<open>A toolkit in which every request succeeds and returns a fresh object.\<close>

definition tk_ok :: "nat toolkit" where
  "tk_ok c n = (Inr (Obj n), Suc n)"

text \<open>
  A toolkit with null handles: the requests selected by
  \<open>missing\<close> return the null handle without raising, and every request that has the
  null handle as receiver or argument raises.
\<close>

definition nullptr :: val where
  "nullptr = Obj 0"

fun uses :: "val \<Rightarrow> tcall \<Rightarrow> bool" where
  "uses v (Invoke recv n args) = (recv = v \<or> v \<in> set args)"
| "uses v _ = False"

definition tk_null :: "(tcall \<Rightarrow> bool) \<Rightarrow> nat toolkit" where
  "tk_null missing c n =
     (if uses nullptr c then (Inl (Raised ''ReferenceError''), n)
      else if missing c then (Inr nullptr, n)
      else (Inr (Obj (Suc n)), Suc n))"

definition missing_file :: "tcall \<Rightarrow> bool" where
  "missing_file c \<longleftrightarrow> c = open_input"





section \<open>Symbolic execution of straight-line code\<close>

text \<open>
  Code without \<open>if\<close>, \<open>try\<close> and nested calls makes the same requests whatever the toolkit
  answers; only the handles inside them vary. Such code compiles to a script: a list of
  requests whose receivers and arguments are constants, members, or \<open>R i\<close>, the answer
  to request number \<open>i\<close>.
\<close>

datatype sarg = L val | R nat | Mem sarg string

datatype scall = Lit tcall | Inv sarg string "sarg list"

fun inst_arg :: "(nat \<Rightarrow> val) \<Rightarrow> sarg \<Rightarrow> val" where
  "inst_arg r (L v) = v"
| "inst_arg r (R i) = r i"
| "inst_arg r (Mem a n) = Member (inst_arg r a) n"

fun inst :: "(nat \<Rightarrow> val) \<Rightarrow> scall \<Rightarrow> tcall" where
  "inst r (Lit c) = c"
| "inst r (Inv recv n args) = Invoke (inst_arg r recv) n (map (inst_arg r) args)"

fun below :: "nat \<Rightarrow> sarg \<Rightarrow> bool" where
  "below k (L v) = True"
| "below k (R i) = (i < k)"
| "below k (Mem a n) = below k a"

fun below_call :: "nat \<Rightarrow> scall \<Rightarrow> bool" where
  "below_call k (Lit c) = True"
| "below_call k (Inv recv n args) = (below k recv \<and> list_all (below k) args)"

fun wf_script :: "nat \<Rightarrow> scall list \<Rightarrow> bool" where
  "wf_script k [] = True"
| "wf_script k (c # cs) = (below_call k c \<and> wf_script (Suc k) cs)"

fun replay :: "'w toolkit \<Rightarrow> scall list \<Rightarrow> nat \<Rightarrow> (nat \<Rightarrow> val) \<Rightarrow> 'w st \<Rightarrow> pyerror option \<times> 'w st" where
  "replay tk [] k r s = (None, s)"
| "replay tk (c # cs) k r s =
     (case ask tk (inst r c) s of
        (Inl err, s') \<Rightarrow> (Some err, s')
      | (Inr v, s') \<Rightarrow> replay tk cs (Suc k) (r(k := v)) s')"

type_synonym senv = "string \<rightharpoonup> sarg"

fun sym_pure :: "senv \<Rightarrow> expr \<Rightarrow> sarg option" where
  "sym_pure senv (Str ps) = Some (L (StrV (concat ps)))"
| "sym_pure senv (Num q) = Some (L (NumV q))"
| "sym_pure senv (Name x) = senv x"
| "sym_pure senv (Attr e n) = map_option (\<lambda>a. Mem a n) (sym_pure senv e)"
| "sym_pure senv _ = None"

fun sym_list :: "senv \<Rightarrow> expr list \<Rightarrow> sarg list option" where
  "sym_list senv [] = Some []"
| "sym_list senv (e # es) =
     (case sym_pure senv e of
        None \<Rightarrow> None
      | Some a \<Rightarrow> map_option (Cons a) (sym_list senv es))"

fun sym_call :: "senv \<Rightarrow> expr \<Rightarrow> scall option" where
  "sym_call senv (Call (Attr f n) args) =
     (case sym_pure senv f of
        None \<Rightarrow> None
      | Some recv \<Rightarrow> map_option (Inv recv n) (sym_list senv args))"
| "sym_call senv _ = None"

fun compile :: "senv \<Rightarrow> nat \<Rightarrow> stmt list \<Rightarrow> scall list option" where
  "compile senv k [] = Some []"
| "compile senv k (Import m # ss) =
     map_option (Cons (Lit (ImportModule m))) (compile (senv(m \<mapsto> L (Module m))) (Suc k) ss)"
| "compile senv k (ImportFrom m n # ss) =
     map_option (Cons (Lit (ImportName m n)))
       (compile (senv(n \<mapsto> L (Member (Module m) n))) (Suc k) ss)"
| "compile senv k (Magic a b # ss) =
     map_option (Cons (Lit (LineMagic a b))) (compile senv (Suc k) ss)"
| "compile senv k (Assign x e # ss) =
     (case sym_call senv e of
        Some c \<Rightarrow> map_option (Cons c) (compile (senv(x \<mapsto> R k)) (Suc k) ss)
      | None \<Rightarrow>
          (case sym_pure senv e of
             None \<Rightarrow> None
           | Some a \<Rightarrow> compile (senv(x \<mapsto> a)) k ss))"
| "compile senv k (Expr e # ss) =
     (case sym_call senv e of
        None \<Rightarrow> None
      | Some c \<Rightarrow> map_option (Cons c) (compile senv (Suc k) ss))"
| "compile senv k (_ # ss) = None"

definition agrees :: "(nat \<Rightarrow> val) \<Rightarrow> env \<Rightarrow> senv \<Rightarrow> bool" where
  "agrees r env senv \<longleftrightarrow> (\<forall>x. env x = map_option (inst_arg r) (senv x))"

definition bounded :: "nat \<Rightarrow> senv \<Rightarrow> bool" where
  "bounded k senv \<longleftrightarrow> (\<forall>x a. senv x = Some a \<longrightarrow> below k a)"

definition outcome :: "pyerror option \<times> env \<times> 'w st \<Rightarrow> pyerror option \<times> 'w st" where
  "outcome x = (case x of (res, env, s) \<Rightarrow> (res, s))"

fun answered :: "(nat \<Rightarrow> val) \<Rightarrow> nat \<Rightarrow> tcall list \<Rightarrow> event list" where
  "answered r k [] = []"
| "answered r k (c # cs) = (c, Inr (r k)) # answered r (Suc k) cs"

text \<open>
  The notebook's schedule: the trace of a run in which no request raises, as a function
  of the answers \<open>r 0, r 1, ...\<close> of the toolkit.
\<close>

definition schedule :: "(nat \<Rightarrow> val) \<Rightarrow> event list" where
  "schedule r =
   [ (ImportModule ''ROOT'', Inr (r 0)),
     (ImportName ''ROOT'' ''TMVA'', Inr (r 1)),
     (Invoke (Member TMVA ''Tools'') ''Instance'' [], Inr (r 2)),
     (Invoke (Member TMVA ''PyMethodBase'') ''PyInitialize'' [], Inr (r 3)),
     (open_output, Inr (r 4)),
     (Invoke TMVA ''Factory''
        [StrV ''TMVA_Classification'', r 4,
         StrV ''!V:ROC:!Silent:Color:!DrawProgressBar:AnalysisType=Classification''],
      Inr (r 5)),
     (open_input, Inr (r 6)),
     (Invoke (r 6) ''Get'' [StrV ''sig_tree''], Inr (r 7)),
     (Invoke (r 6) ''Get'' [StrV ''bkg_tree''], Inr (r 8)),
     (Invoke (r 7) ''Print'' [], Inr (r 9)),
     (Invoke TMVA ''DataLoader'' [StrV ''dataset''], Inr (r 10)),
     (Invoke (r 10) ''AddSignalTree'' [r 7, NumV 1], Inr (r 11)),
     (Invoke (r 10) ''AddBackgroundTree'' [r 8, NumV 1], Inr (r 12)),
     (Invoke (r 10) ''AddVariable'' [StrV ''m_jj''], Inr (r 13)),
     (Invoke (r 10) ''AddVariable'' [StrV ''m_jjj''], Inr (r 14)),
     (Invoke (r 10) ''AddVariable'' [StrV ''m_lv''], Inr (r 15)),
     (Invoke (r 10) ''AddVariable'' [StrV ''m_jlv''], Inr (r 16)),
     (Invoke (r 10) ''AddVariable'' [StrV ''m_bb''], Inr (r 17)),
     (Invoke (r 10) ''AddVariable'' [StrV ''m_wbb''], Inr (r 18)),
     (Invoke (r 10) ''AddVariable'' [StrV ''m_wwbb''], Inr (r 19)),
     (Invoke (Module ''ROOT'') ''TCut'' [StrV []], Inr (r 20)),
     (Invoke (Module ''ROOT'') ''TCut'' [StrV []], Inr (r 21)),
     (Invoke (r 10) ''PrepareTrainingAndTestTree''
        [r 20, r 21,
         StrV ''nTrain_Signal=7000:nTrain_Background=7000:SplitMode=Random:NormMode=NumEvents:!V''],
      Inr (r 22)),
     (Invoke (r 5) ''BookMethod''
        [r 10, Member Types ''kBDT'', StrV ''BDT'',
         StrV ''!V:NTrees=200:MinNodeSize=2.5%:MaxDepth=2:BoostType=AdaBoost:AdaBoostBeta=0.5:UseBaggedBoost:BaggedSampleFraction=0.5:SeparationType=GiniIndex:nCuts=20''],
      Inr (r 23)),
     (Invoke (r 5) ''BookMethod''
        [r 10, Member Types ''kMLP'', StrV ''MLP'',
         StrV ''!H:!V:NeuronType=tanh:VarTransform=N:NCycles=100:HiddenLayers=N+5:TestRate=5:!UseRegulator''],
      Inr (r 24)),
     (Invoke (r 5) ''TrainAllMethods'' [], Inr (r 25)),
     (Invoke (r 5) ''TestAllMethods'' [], Inr (r 26)),
     (Invoke (r 5) ''EvaluateAllMethods'' [], Inr (r 27)),
     (LineMagic ''jsroot'' ''on'', Inr (r 28)),
     (Invoke (r 5) ''GetROCCurve'' [r 10], Inr (r 29)),
     (Invoke (r 29) ''Draw'' [], Inr (r 30)),
     (Invoke (r 4) ''Close'' [], Inr (r 31)) ]"

text \<open>A run that the toolkit cuts short at request \<open>n\<close> with the exception \<open>err\<close>.\<close>

definition cut_short :: "event list \<Rightarrow> nat \<Rightarrow> pyerror \<Rightarrow> event list" where
  "cut_short full n err = take n full @ [(fst (full ! n), Inl err)]"

section \<open>Straight-line code replays its script\<close>

lemma inst_arg_upd: "below k a \<Longrightarrow> inst_arg (r(k := v)) a = inst_arg r a"
  by (induction a) auto

lemma below_mono: "below k a \<Longrightarrow> below (Suc k) a"
  by (induction a) auto

lemma sym_pure_below: "sym_pure senv e = Some a \<Longrightarrow> bounded k senv \<Longrightarrow> below k a"
  by (induction e arbitrary: a) (auto simp: bounded_def)

lemma sym_list_below: "sym_list senv es = Some as \<Longrightarrow> bounded k senv \<Longrightarrow> list_all (below k) as"
  by (induction es arbitrary: as) (auto split: option.splits simp: sym_pure_below)

lemma sym_call_below: "sym_call senv e = Some c \<Longrightarrow> bounded k senv \<Longrightarrow> below_call k c"
  by (induction senv e rule: sym_call.induct)
     (auto split: option.splits simp: sym_pure_below sym_list_below)

lemma sym_pure_eval:
  "sym_pure senv e = Some a \<Longrightarrow> agrees r env senv \<Longrightarrow> eval tk env e s = (Inr (inst_arg r a), s)"
  by (induction e arbitrary: a) (auto simp: agrees_def)

lemma sym_list_eval:
  "sym_list senv es = Some as \<Longrightarrow> agrees r env senv \<Longrightarrow>
     eval_list tk env es s = (Inr (map (inst_arg r) as), s)"
  by (induction es arbitrary: as) (auto split: option.splits simp: sym_pure_eval)

lemma sym_call_eval:
  "sym_call senv e = Some c \<Longrightarrow> agrees r env senv \<Longrightarrow> eval tk env e s = ask tk (inst r c) s"
  by (induction senv e rule: sym_call.induct)
     (auto split: option.splits simp: sym_pure_eval sym_list_eval)

lemma bounded_Suc: "bounded k senv \<Longrightarrow> bounded (Suc k) senv"
  by (auto simp: bounded_def below_mono)

lemma bounded_bind: "bounded k senv \<Longrightarrow> below k a \<Longrightarrow> bounded k (senv(x \<mapsto> a))"
  by (auto simp: bounded_def)

lemma bounded_result: "bounded k senv \<Longrightarrow> below (Suc k) a \<Longrightarrow> bounded (Suc k) (senv(x \<mapsto> a))"
  by (rule bounded_bind[OF bounded_Suc])

lemma agrees_upd: "agrees r env senv \<Longrightarrow> bounded k senv \<Longrightarrow> agrees (r(k := v)) env senv"
  unfolding agrees_def bounded_def
proof (intro allI)
  fix x
  assume a: "\<forall>x. env x = map_option (inst_arg r) (senv x)"
    and b: "\<forall>x a. senv x = Some a \<longrightarrow> below k a"
  show "env x = map_option (inst_arg (r(k := v))) (senv x)"
  proof (cases "senv x")
    case None
    with a show ?thesis by simp
  next
    case (Some c)
    with a b show ?thesis by (simp add: inst_arg_upd)
  qed
qed

lemma agrees_bind: "agrees r env senv \<Longrightarrow> agrees r (env(x \<mapsto> inst_arg r a)) (senv(x \<mapsto> a))"
  by (auto simp: agrees_def)

lemma agrees_result:
  "agrees r env senv \<Longrightarrow> bounded k senv \<Longrightarrow>
     agrees (r(k := v)) (env(x \<mapsto> inst_arg (r(k := v)) a)) (senv(x \<mapsto> a))"
  by (rule agrees_bind[OF agrees_upd])

lemma compile_wf: "compile senv k ss = Some cs \<Longrightarrow> bounded k senv \<Longrightarrow> wf_script k cs"
proof (induction senv k ss arbitrary: cs rule: compile.induct)
  case (5 senv k x e ss)
  show ?case
  proof (cases "sym_call senv e")
    case None
    then obtain a where a: "sym_pure senv e = Some a" and c: "compile (senv(x \<mapsto> a)) k ss = Some cs"
      using "5.prems"(1) by (auto split: option.splits)
    show ?thesis
      by (rule "5.IH"(1)[OF None a c bounded_bind[OF "5.prems"(2) sym_pure_below[OF a "5.prems"(2)]]])
  next
    case (Some c)
    then obtain cs' where cs: "cs = c # cs'" and c': "compile (senv(x \<mapsto> R k)) (Suc k) ss = Some cs'"
      using "5.prems"(1) by (auto split: option.splits)
    have "below (Suc k) (R k)" by simp
    then have "wf_script (Suc k) cs'"
      by (rule "5.IH"(2)[OF Some c' bounded_result[OF "5.prems"(2)]])
    then show ?thesis
      using cs sym_call_below[OF Some "5.prems"(2)] by simp
  qed
qed (auto split: option.splits simp: bounded_Suc bounded_result sym_call_below)

lemma outcome_Cons:
  "outcome (exec_block tk (c # cs) (env, s)) =
     (case exec tk c (env, s) of
        (Some err, env', s') \<Rightarrow> (Some err, s')
      | (None, env', s') \<Rightarrow> outcome (exec_block tk cs (env', s')))"
  by (simp add: outcome_def split: prod.splits option.splits)

lemma compile_sound:
  "compile senv k ss = Some cs \<Longrightarrow> bounded k senv \<Longrightarrow> agrees r env senv \<Longrightarrow>
     outcome (exec_block tk ss (env, s)) = replay tk cs k r s"
proof (induction senv k ss arbitrary: cs r env s rule: compile.induct)
  case (1 senv k)
  then show ?case by (simp add: outcome_def)
next
  case (2 senv k m ss)
  then obtain cs' where cs: "cs = Lit (ImportModule m) # cs'"
    and c': "compile (senv(m \<mapsto> L (Module m))) (Suc k) ss = Some cs'"
    by auto
  have b: "bounded (Suc k) (senv(m \<mapsto> L (Module m)))"
    by (rule bounded_result[OF "2.prems"(2)]) simp
  have a: "agrees (r(k := v)) (env(m \<mapsto> Module m)) (senv(m \<mapsto> L (Module m)))" for v
    using agrees_result[OF "2.prems"(3) "2.prems"(2), where a = "L (Module m)"] by simp
  have ih: "outcome (exec_block tk ss (env(m \<mapsto> Module m), s')) = replay tk cs' (Suc k) (r(k := v)) s'"
    for v s'
    by (rule "2.IH"[OF c' b a])
  show ?case
    by (simp add: cs outcome_Cons ih del: exec_block.simps split: prod.splits sum.splits)
next
  case (3 senv k m n ss)
  then obtain cs' where cs: "cs = Lit (ImportName m n) # cs'"
    and c': "compile (senv(n \<mapsto> L (Member (Module m) n))) (Suc k) ss = Some cs'"
    by auto
  have b: "bounded (Suc k) (senv(n \<mapsto> L (Member (Module m) n)))"
    by (rule bounded_result[OF "3.prems"(2)]) simp
  have a: "agrees (r(k := v)) (env(n \<mapsto> Member (Module m) n)) (senv(n \<mapsto> L (Member (Module m) n)))"
    for v
    using agrees_result[OF "3.prems"(3) "3.prems"(2), where a = "L (Member (Module m) n)"] by simp
  have ih: "outcome (exec_block tk ss (env(n \<mapsto> Member (Module m) n), s')) =
      replay tk cs' (Suc k) (r(k := v)) s'"
    for v s'
    by (rule "3.IH"[OF c' b a])
  show ?case
    by (simp add: cs outcome_Cons ih del: exec_block.simps split: prod.splits sum.splits)
next
  case (4 senv k a b ss)
  then obtain cs' where cs: "cs = Lit (LineMagic a b) # cs'"
    and c': "compile senv (Suc k) ss = Some cs'"
    by auto
  have ih: "outcome (exec_block tk ss (env, s')) = replay tk cs' (Suc k) (r(k := v)) s'" for v s'
    by (rule "4.IH"[OF c' bounded_Suc[OF "4.prems"(2)] agrees_upd[OF "4.prems"(3) "4.prems"(2)]])
  show ?case
    by (simp add: cs outcome_Cons ih del: exec_block.simps split: prod.splits sum.splits)
next
  case (5 senv k x e ss)
  show ?case
  proof (cases "sym_call senv e")
    case None
    then obtain a where a: "sym_pure senv e = Some a" and c: "compile (senv(x \<mapsto> a)) k ss = Some cs"
      using "5.prems"(1) by (auto split: option.splits)
    have ev: "eval tk env e s = (Inr (inst_arg r a), s)"
      by (rule sym_pure_eval[OF a "5.prems"(3)])
    have ih: "outcome (exec_block tk ss (env(x \<mapsto> inst_arg r a), s)) = replay tk cs k r s"
      by (rule "5.IH"(1)[OF None a c bounded_bind[OF "5.prems"(2) sym_pure_below[OF a "5.prems"(2)]]
            agrees_bind[OF "5.prems"(3)]])
    show ?thesis by (simp add: outcome_Cons ev ih del: exec_block.simps)
  next
    case (Some c)
    then obtain cs' where cs: "cs = c # cs'" and c': "compile (senv(x \<mapsto> R k)) (Suc k) ss = Some cs'"
      using "5.prems"(1) by (auto split: option.splits)
    have ev: "eval tk env e s = ask tk (inst r c) s"
      by (rule sym_call_eval[OF Some "5.prems"(3)])
    have b: "bounded (Suc k) (senv(x \<mapsto> R k))"
      by (rule bounded_result[OF "5.prems"(2)]) simp
    have a: "agrees (r(k := v)) (env(x \<mapsto> v)) (senv(x \<mapsto> R k))" for v
      using agrees_result[OF "5.prems"(3) "5.prems"(2), where a = "R k"] by simp
    have ih: "outcome (exec_block tk ss (env(x \<mapsto> v), s')) = replay tk cs' (Suc k) (r(k := v)) s'"
      for v s'
      by (rule "5.IH"(2)[OF Some c' b a])
    show ?thesis
      by (simp add: cs outcome_Cons ev ih del: exec_block.simps split: prod.splits sum.splits)
  qed
next
  case (6 senv k e ss)
  then obtain c cs' where sc: "sym_call senv e = Some c" and cs: "cs = c # cs'"
      and c': "compile senv (Suc k) ss = Some cs'"
    by (auto split: option.splits)
  have ev: "eval tk env e s = ask tk (inst r c) s"
    by (rule sym_call_eval[OF sc "6.prems"(3)])
  have ih: "outcome (exec_block tk ss (env, s')) = replay tk cs' (Suc k) (r(k := v)) s'" for v s'
    by (rule "6.IH"[OF sc c' bounded_Suc[OF "6.prems"(2)] agrees_upd[OF "6.prems"(3) "6.prems"(2)]])
  show ?case
    by (simp add: cs outcome_Cons ev ih del: exec_block.simps split: prod.splits sum.splits)
qed simp_all

section \<open>The shape of a replayed trace\<close>

lemma inst_arg_cong: "below k a \<Longrightarrow> \<forall>i<k. r' i = r i \<Longrightarrow> inst_arg r' a = inst_arg r a"
  by (induction a) auto

lemma inst_cong: "below_call k c \<Longrightarrow> \<forall>i<k. r' i = r i \<Longrightarrow> inst r' c = inst r c"
  by (cases c) (auto simp: list_all_iff inst_arg_cong)

lemma ask_eq: "ask tk c (tr, w) = (x, s') \<Longrightarrow> \<exists>w1. s' = (tr @ [(c, x)], w1)"
  by (auto simp: ask_def split: prod.splits)

lemma replay_shape:
  "wf_script k cs \<Longrightarrow> replay tk cs k r (tr, w) = (res, tr', w') \<Longrightarrow>
     \<exists>r'. (\<forall>i<k. r' i = r i) \<and>
       ((res = None \<and> tr' = tr @ answered r' k (map (inst r') cs)) \<or>
        (\<exists>n e. n < length cs \<and> res = Some e \<and>
           tr' = tr @ answered r' k (take n (map (inst r') cs)) @ [(inst r' (cs ! n), Inl e)]))"
proof (induction cs arbitrary: k r tr w)
  case Nil
  then show ?case by auto
next
  case (Cons c cs)
  obtain x s1 where a: "ask tk (inst r c) (tr, w) = (x, s1)"
    by (cases "ask tk (inst r c) (tr, w)")
  from ask_eq[OF a] obtain w1 where s1: "s1 = (tr @ [(inst r c, x)], w1)" ..
  show ?case
  proof (cases x)
    case (Inl e)
    with Cons.prems(2) a s1 have "res = Some e" "tr' = tr @ [(inst r c, Inl e)]" by auto
    then have "(\<forall>i<k. r i = r i) \<and> 0 < length (c # cs) \<and> res = Some e \<and>
        tr' = tr @ answered r k (take 0 (map (inst r) (c # cs))) @ [(inst r ((c # cs) ! 0), Inl e)]"
      by simp
    then show ?thesis by blast
  next
    case (Inr v)
    with Cons.prems(2) a s1
    have rp: "replay tk cs (Suc k) (r(k := v)) (tr @ [(inst r c, Inr v)], w1) = (res, tr', w')"
      by simp
    from Cons.prems(1) have bc: "below_call k c" and wf: "wf_script (Suc k) cs" by auto
    from Cons.IH[OF wf rp] obtain r' where
      ag: "\<forall>i<Suc k. r' i = (r(k := v)) i" and
      sh: "(res = None \<and> tr' = (tr @ [(inst r c, Inr v)]) @ answered r' (Suc k) (map (inst r') cs)) \<or>
        (\<exists>n e. n < length cs \<and> res = Some e \<and>
           tr' = (tr @ [(inst r c, Inr v)]) @ answered r' (Suc k) (take n (map (inst r') cs)) @
                 [(inst r' (cs ! n), Inl e)])"
      by blast
    from ag have rk: "r' k = v" and low: "\<forall>i<k. r' i = r i" by auto
    have ic: "inst r' c = inst r c" by (rule inst_cong[OF bc low])
    from sh show ?thesis
    proof
      assume "res = None \<and> tr' = (tr @ [(inst r c, Inr v)]) @ answered r' (Suc k) (map (inst r') cs)"
      then have "res = None \<and> tr' = tr @ answered r' k (map (inst r') (c # cs))"
        by (simp add: ic rk)
      with low show ?thesis by blast
    next
      assume "\<exists>n e. n < length cs \<and> res = Some e \<and>
           tr' = (tr @ [(inst r c, Inr v)]) @ answered r' (Suc k) (take n (map (inst r') cs)) @
                 [(inst r' (cs ! n), Inl e)]"
      then obtain n e where "n < length cs" "res = Some e"
        "tr' = (tr @ [(inst r c, Inr v)]) @ answered r' (Suc k) (take n (map (inst r') cs)) @
               [(inst r' (cs ! n), Inl e)]"
        by blast
      then have "Suc n < length (c # cs) \<and> res = Some e \<and>
          tr' = tr @ answered r' k (take (Suc n) (map (inst r') (c # cs))) @
                [(inst r' ((c # cs) ! Suc n), Inl e)]"
        by (simp add: ic rk)
      with low show ?thesis by blast
    qed
  qed
qed

lemma answered_take: "answered r k (take n cs) = take n (answered r k cs)"
  by (induction cs arbitrary: k n) (auto simp: take_Cons split: nat.splits)

lemma answered_nth: "n < length cs \<Longrightarrow> fst (answered r k cs ! n) = cs ! n"
  by (induction cs arbitrary: k n) (auto simp: nth_Cons split: nat.splits)

section \<open>The notebook is straight-line code\<close>

lemma compile_notebook:
  "\<exists>cs. compile Map.empty 0 (executed notebook) = Some cs \<and> length cs = 32 \<and>
        (\<forall>r. answered r 0 (map (inst r) cs) = schedule r)"
  by (simp add: notebook_def schedule_def TMVA_def TFile_def Types_def open_output_def
      open_input_def eval_nat_numeral)

lemma length_schedule: "length (schedule r) = 32"
  by (simp add: schedule_def)

text \<open>Every run follows the schedule, to its end or to the first request that raises.\<close>

lemma run_cases:
  assumes run: "run_notebook tk w = (res, tr, w')"
  shows "\<exists>r. (res = None \<and> tr = schedule r) \<or>
           (\<exists>n e. n < 32 \<and> res = Some e \<and> tr = cut_short (schedule r) n e)"
proof -
  from compile_notebook obtain cs where
    c: "compile Map.empty 0 (executed notebook) = Some cs" and len: "length cs = 32"
    and sch: "\<And>r. answered r 0 (map (inst r) cs) = schedule r"
    by blast
  have b: "bounded 0 Map.empty" by (simp add: bounded_def)
  have a: "agrees (\<lambda>_. NoneV) Map.empty Map.empty" by (simp add: agrees_def)
  have "outcome (exec_block tk (executed notebook) (Map.empty, ([], w))) = (res, tr, w')"
    using run by (simp add: run_notebook_def outcome_def split: prod.splits)
  then have rp: "replay tk cs 0 (\<lambda>_. NoneV) ([], w) = (res, tr, w')"
    by (simp add: compile_sound[OF c b a])
  from replay_shape[OF compile_wf[OF c b] rp] obtain r where
    sh: "(res = None \<and> tr = [] @ answered r 0 (map (inst r) cs)) \<or>
        (\<exists>n e. n < length cs \<and> res = Some e \<and>
           tr = [] @ answered r 0 (take n (map (inst r) cs)) @ [(inst r (cs ! n), Inl e)])"
    by blast
  have cut: "answered r 0 (take n (map (inst r) cs)) @ [(inst r (cs ! n), Inl e)] =
      cut_short (schedule r) n e" if "n < 32" for n e
  proof -
    have "fst (answered r 0 (map (inst r) cs) ! n) = map (inst r) cs ! n"
      using that len by (simp add: answered_nth)
    then have "fst (schedule r ! n) = inst r (cs ! n)"
      using that len by (simp add: sch)
    then show ?thesis
      by (simp add: cut_short_def answered_take sch)
  qed
  from sh have "(res = None \<and> tr = schedule r) \<or>
      (\<exists>n e. n < 32 \<and> res = Some e \<and> tr = cut_short (schedule r) n e)"
  proof
    assume "res = None \<and> tr = [] @ answered r 0 (map (inst r) cs)"
    then show ?thesis by (simp add: sch)
  next
    assume "\<exists>n e. n < length cs \<and> res = Some e \<and>
        tr = [] @ answered r 0 (take n (map (inst r) cs)) @ [(inst r (cs ! n), Inl e)]"
    then obtain n e where n: "n < 32" and "res = Some e"
      and "tr = answered r 0 (take n (map (inst r) cs)) @ [(inst r (cs ! n), Inl e)]"
      using len by auto
    then have "n < 32 \<and> res = Some e \<and> tr = cut_short (schedule r) n e"
      by (simp add: cut)
    then show ?thesis by blast
  qed
  then show ?thesis by blast
qed

section \<open>What every run inherits from the schedule\<close>

lemma cut_short_calls:
  "n < length full \<Longrightarrow> map fst (cut_short full n err) = take (Suc n) (map fst full)"
  by (simp add: cut_short_def take_Suc_conv_app_nth take_map)

lemma map_filter_fst: "List.map_filter (\<lambda>ev. f (fst ev)) tr = List.map_filter f (map fst tr)"
  by (induction tr) (auto split: option.splits)

lemma prefix_map_filter: "prefix xs ys \<Longrightarrow> prefix (List.map_filter f xs) (List.map_filter f ys)"
  by (auto simp: prefix_def List.map_filter_def)

text \<open>
  A view of the trace that looks at the requests only is, on every run, a prefix of the
  same view of the schedule, and all of it when the run completes.
\<close>

lemma run_view:
  assumes run: "run_notebook tk w = (res, tr, w')"
  shows "\<exists>r. prefix (List.map_filter (\<lambda>ev. f (fst ev)) tr)
                 (List.map_filter (\<lambda>ev. f (fst ev)) (schedule r)) \<and>
             (res = None \<longrightarrow> tr = schedule r)"
proof -
  from run_cases[OF run] obtain r where
    sh: "(res = None \<and> tr = schedule r) \<or>
         (\<exists>n e. n < 32 \<and> res = Some e \<and> tr = cut_short (schedule r) n e)" ..
  have "prefix (map fst tr) (map fst (schedule r))"
    using sh by (auto simp: cut_short_calls length_schedule take_is_prefix)
  then have "prefix (List.map_filter f (map fst tr)) (List.map_filter f (map fst (schedule r)))"
    by (rule prefix_map_filter)
  moreover have "res = None \<longrightarrow> tr = schedule r"
    using sh by auto
  ultimately show ?thesis
    unfolding map_filter_fst by blast
qed

lemma at_each_call_cut:
  "at_each_call Q hist full \<Longrightarrow> n < length full \<Longrightarrow> at_each_call Q hist (cut_short full n err)"
proof (induction full arbitrary: n hist)
  case Nil
  then show ?case by simp
next
  case (Cons ev full)
  show ?case
  proof (cases n)
    case 0
    with Cons.prems show ?thesis by (simp add: cut_short_def)
  next
    case (Suc m)
    with Cons.prems have "at_each_call Q (ev # hist) (cut_short full m err)"
      by (intro Cons.IH) auto
    with Cons.prems Suc show ?thesis by (simp add: cut_short_def)
  qed
qed

text \<open>What holds at each request of the schedule holds at each request of every run.\<close>

lemma run_at_each_call:
  assumes run: "run_notebook tk w = (res, tr, w')"
    and sch: "\<And>r. at_each_call Q [] (schedule r)"
  shows "at_each_call Q [] tr"
proof -
  from run_cases[OF run] obtain r where
    "(res = None \<and> tr = schedule r) \<or>
     (\<exists>n e. n < 32 \<and> res = Some e \<and> tr = cut_short (schedule r) n e)" ..
  then show ?thesis
    using sch[of r] by (auto simp: length_schedule intro: at_each_call_cut)
qed

lemma raised_take: "raised xs = [] \<Longrightarrow> raised (take n xs) = []"
  by (auto simp: raised_def List.map_filter_def filter_empty_conv dest: in_set_takeD)

lemma raised_schedule: "raised (schedule r) = []"
  by (simp add: schedule_def raised_def)

lemma raised_cut_short: "raised (cut_short (schedule r) n err) = [err]"
  using raised_take[OF raised_schedule, of n r]
  by (simp add: cut_short_def raised_def List.map_filter_def)

lemma sorted_prefix: "prefix xs ys \<Longrightarrow> sorted ys \<Longrightarrow> sorted xs"
  by (auto simp: prefix_def sorted_append)

section \<open>Facts about the schedule and concrete runs\<close>

lemma list_all_prefix: "prefix xs ys \<Longrightarrow> list_all P ys \<Longrightarrow> list_all P xs"
  by (auto simp: prefix_def)

lemma prefix_full: "prefix xs ys \<Longrightarrow> length xs = length ys \<Longrightarrow> xs = ys"
  by (auto simp: prefix_def)

lemma bookings_schedule:
  "bookings (schedule r) =
     [[r 10, Member Types ''kBDT'', StrV ''BDT'',
       StrV ''!V:NTrees=200:MinNodeSize=2.5%:MaxDepth=2:BoostType=AdaBoost:AdaBoostBeta=0.5:UseBaggedBoost:BaggedSampleFraction=0.5:SeparationType=GiniIndex:nCuts=20''],
      [r 10, Member Types ''kMLP'', StrV ''MLP'',
       StrV ''!H:!V:NeuronType=tanh:VarTransform=N:NCycles=100:HiddenLayers=N+5:TestRate=5:!UseRegulator'']]"
  by (simp add: bookings_def schedule_def open_input_def open_output_def)

lemma run_bookings:
  assumes run: "run_notebook tk w = (res, tr, w')"
  shows "\<exists>r. prefix (bookings tr) (bookings (schedule r)) \<and> (res = None \<longrightarrow> tr = schedule r)"
  using run_view[OF run, of book_args] unfolding bookings_def .

lemma no_checks: "\<not> list_ex checks (executed notebook)"
  by (simp add: notebook_def)

lemma no_handlers: "\<not> list_ex intercepts (executed notebook)"
  by (simp add: notebook_def)

lemma Cons_eq_if: "(x # xs = y # ys) = (if x = y then xs = ys else False)"
  by simp


lemma source_literals:
  "concat (map stmt_lits (executed notebook)) =
     [StrV ''ClassificationOutput.root'', StrV ''RECREATE'', StrV ''TMVA_Classification'',
      StrV ''!V:ROC:!Silent:Color:!DrawProgressBar:AnalysisType=Classification'',
      StrV ''data/tmva_data.root'', StrV ''sig_tree'', StrV ''bkg_tree'', StrV ''dataset'',
      NumV 1, NumV 1, StrV ''m_jj'', StrV ''m_jjj'', StrV ''m_lv'', StrV ''m_jlv'',
      StrV ''m_bb'', StrV ''m_wbb'', StrV ''m_wwbb'', StrV [], StrV [],
      StrV ''nTrain_Signal=7000:nTrain_Background=7000:SplitMode=Random:NormMode=NumEvents:!V'',
      StrV ''BDT'',
      StrV ''!V:NTrees=200:MinNodeSize=2.5%:MaxDepth=2:BoostType=AdaBoost:AdaBoostBeta=0.5:UseBaggedBoost:BaggedSampleFraction=0.5:SeparationType=GiniIndex:nCuts=20'',
      StrV ''MLP'',
      StrV ''!H:!V:NeuronType=tanh:VarTransform=N:NCycles=100:HiddenLayers=N+5:TestRate=5:!UseRegulator'']"
  by (simp add: notebook_def)

lemma run_ok: "run_notebook tk_ok 0 = (None, schedule Obj, 32)"
  by (simp add: run_notebook_def notebook_def tk_ok_def ask_def schedule_def TMVA_def TFile_def
      Types_def open_output_def open_input_def)

lemma missing_file_run:
  "run_notebook (tk_null missing_file) 0 =
     (Some (Raised ''ReferenceError''),
      [(ImportModule ''ROOT'', Inr (Obj 1)),
       (ImportName ''ROOT'' ''TMVA'', Inr (Obj 2)),
       (Invoke (Member TMVA ''Tools'') ''Instance'' [], Inr (Obj 3)),
       (Invoke (Member TMVA ''PyMethodBase'') ''PyInitialize'' [], Inr (Obj 4)),
       (open_output, Inr (Obj 5)),
       (Invoke TMVA ''Factory''
          [StrV ''TMVA_Classification'', Obj 5,
           StrV ''!V:ROC:!Silent:Color:!DrawProgressBar:AnalysisType=Classification''],
        Inr (Obj 6)),
       (open_input, Inr nullptr),
       (Invoke nullptr ''Get'' [StrV ''sig_tree''], Inl (Raised ''ReferenceError''))],
      6)"
  by (simp add: run_notebook_def notebook_def tk_null_def missing_file_def nullptr_def ask_def
      TMVA_def TFile_def open_output_def open_input_def)

text \<open>
  An exception answered to a request ends the run there and is its result: the trace
  holds no other exception.
\<close>

lemma run_raised:
  assumes run: "run_notebook tk w = (res, tr, w')"
  shows "raised tr = (case res of None \<Rightarrow> [] | Some err \<Rightarrow> [err]) \<and>
     (\<forall>err. res = Some err \<longrightarrow> tr \<noteq> [] \<and> snd (last tr) = Inl err)"
proof -
  from run_cases[OF run] obtain r where
    "(res = None \<and> tr = schedule r) \<or>
     (\<exists>n e. n < 32 \<and> res = Some e \<and> tr = cut_short (schedule r) n e)" ..
  then show ?thesis
  proof (elim disjE exE conjE)
    assume "res = None" "tr = schedule r"
    then show ?thesis by (simp add: raised_schedule)
  next
    fix n e
    assume "res = Some e" "tr = cut_short (schedule r) n e"
    then show ?thesis by (simp add: raised_cut_short) (simp add: cut_short_def)
  qed
qed




section \<open>The claims\<close>

text \<open>
  Claim C1. On every run the toolkit calls respect the order of the nine steps: library
  initialization, input file and trees, variable registration, train/test partitioning,
  method booking, training, testing, evaluation, ROC plotting. A call of an earlier
  step is never made after a call of a later step, and a run that no exception cuts
  short goes through the nine steps, each in one block, in exactly this order.
\<close>

theorem steps_in_order:
  assumes run: "run_notebook tk w = (res, tr, w')"
  shows "sorted (map rank (steps tr)) \<and>
     (res = None \<longrightarrow>
        remdups_adj (steps tr) =
          [Init, Input, Register, Partition, Book, Train, Test, Evaluate, Plot])"
proof -
  have full: "steps (schedule r) =
      [Init, Init, Input, Input, Input, Register, Register, Register, Register, Register,
       Register, Register, Partition, Book, Book, Train, Test, Evaluate, Plot]" for r
    by (simp add: steps_def schedule_def TMVA_def TFile_def
        open_input_def open_output_def)
  from run_view[OF run, of step_of] obtain r where
    pre: "prefix (steps tr) (steps (schedule r))" and all: "res = None \<longrightarrow> tr = schedule r"
    unfolding steps_def by blast
  have "sorted (map rank (steps (schedule r)))"
    by (simp add: full)
  then have "sorted (map rank (steps tr))"
    by (rule sorted_prefix[OF map_mono_prefix[OF pre]])
  moreover have "remdups_adj (steps tr) =
      [Init, Input, Register, Partition, Book, Train, Test, Evaluate, Plot]" if "res = None"
    using that all by (simp add: full)
  ultimately show ?thesis by blast
qed

theorem steps_in_order_witness:
  "run_notebook tk_ok 0 = (None, schedule Obj, 32) \<and>
   sorted (map rank (steps (schedule Obj))) \<and>
   remdups_adj (steps (schedule Obj)) =
     [Init, Input, Register, Partition, Book, Train, Test, Evaluate, Plot]"
  using steps_in_order[OF run_ok] run_ok by blast

text \<open>
  Claim C2. Exactly two classifier methods are booked, on the factory: first one of type
  kBDT named "BDT", then one of type kMLP named "MLP", each with a non-empty option
  string. A run that an exception cuts short has booked a prefix of these two; no run
  books anything else. The bookings PyGTB, PyRandomForest and PyAdaBoost stand in a raw
  cell, which is not executed.
\<close>

theorem two_methods_booked:
  assumes run: "run_notebook tk w = (res, tr, w')"
  shows "prefix (map (\<lambda>args. take 2 (drop 1 args)) (bookings tr))
           [[Member Types ''kBDT'', StrV ''BDT''], [Member Types ''kMLP'', StrV ''MLP'']] \<and>
     (res = None \<longrightarrow> length (bookings tr) = 2) \<and>
     list_all nonempty_options (bookings tr) \<and>
     at_each_call on_factory [] tr \<and>
     List.map_filter booked_name (executed notebook) = [''BDT'', ''MLP''] \<and>
     List.map_filter booked_name (raw_cells notebook) =
       [''PyGTB'', ''PyRandomForest'', ''PyAdaBoost'']"
proof -
  from run_bookings[OF run] obtain r where
    pre: "prefix (bookings tr) (bookings (schedule r))" and all: "res = None \<longrightarrow> tr = schedule r"
    by blast
  have "prefix (map (\<lambda>args. take 2 (drop 1 args)) (bookings tr))
      (map (\<lambda>args. take 2 (drop 1 args)) (bookings (schedule r)))"
    by (rule map_mono_prefix[OF pre])
  then have a: "prefix (map (\<lambda>args. take 2 (drop 1 args)) (bookings tr))
      [[Member Types ''kBDT'', StrV ''BDT''], [Member Types ''kMLP'', StrV ''MLP'']]"
    by (simp add: bookings_schedule)
  have b: "res = None \<longrightarrow> length (bookings tr) = 2"
    using all by (auto simp: bookings_schedule)
  have "list_all nonempty_options (bookings (schedule r))"
    by (simp add: bookings_schedule)
  then have c: "list_all nonempty_options (bookings tr)"
    by (rule list_all_prefix[OF pre])
  have "at_each_call on_factory [] (schedule r)" for r
    by (simp add: schedule_def returned_def TMVA_def open_input_def open_output_def)
  then have d: "at_each_call on_factory [] tr"
    by (rule run_at_each_call[OF run])
  have e: "List.map_filter booked_name (executed notebook) = [''BDT'', ''MLP'']"
    by (simp add: notebook_def)
  have f: "List.map_filter booked_name (raw_cells notebook) =
      [''PyGTB'', ''PyRandomForest'', ''PyAdaBoost'']"
    by (simp add: notebook_def)
  from a b c d e f show ?thesis by blast
qed

theorem two_methods_booked_witness:
  "run_notebook tk_ok 0 = (None, schedule Obj, 32) \<and>
   map (\<lambda>args. take 2 (drop 1 args)) (bookings (schedule Obj)) =
     [[Member Types ''kBDT'', StrV ''BDT''], [Member Types ''kMLP'', StrV ''MLP'']] \<and>
   list_all nonempty_options (bookings (schedule Obj)) \<and>
   at_each_call on_factory [] (schedule Obj)"
proof -
  have "length (map (\<lambda>args. take 2 (drop 1 args)) (bookings (schedule Obj))) =
      length [[Member Types ''kBDT'', StrV ''BDT''], [Member Types ''kMLP'', StrV ''MLP'']]"
    using two_methods_booked[OF run_ok] by simp
  then show ?thesis
    using two_methods_booked[OF run_ok] run_ok prefix_full by blast
qed

text \<open>
  Claim C3. The option string with which the BDT method is booked is colon-delimited
  and has, among its settings, !V, NTrees=200, MaxDepth=2 and BoostType=AdaBoost. On
  every run each booking has four arguments, and the fourth argument of each booking
  named "BDT" is such a string; a run that completes has made such a booking.
\<close>

theorem bdt_option_string:
  assumes run: "run_notebook tk w = (res, tr, w')"
  shows "list_all bdt_settings (bookings tr) \<and>
     (res = None \<longrightarrow> list_ex (named ''BDT'') (bookings tr))"
proof -
  from run_bookings[OF run] obtain r where
    pre: "prefix (bookings tr) (bookings (schedule r))" and all: "res = None \<longrightarrow> tr = schedule r"
    by blast
  have "list_all bdt_settings (bookings (schedule r))"
    by (simp add: bookings_schedule)
  then have "list_all bdt_settings (bookings tr)"
    by (rule list_all_prefix[OF pre])
  moreover have "res = None \<longrightarrow> list_ex (named ''BDT'') (bookings tr)"
    using all by (auto simp: bookings_schedule)
  ultimately show ?thesis by blast
qed

theorem bdt_option_string_witness:
  "run_notebook tk_ok 0 = (None, schedule Obj, 32) \<and>
   list_all bdt_settings (bookings (schedule Obj)) \<and>
   list_ex (named ''BDT'') (bookings (schedule Obj))"
  using bdt_option_string[OF run_ok] run_ok by blast

text \<open>
  Claim C4, as stated: every argument of every toolkit call is a literal of the source
  or a handle returned by an earlier call. It fails at the first BookMethod call, whose
  second argument is \<^verbatim>\<open>ROOT.TMVA.Types.kBDT\<close>: a constant of the toolkit, read by
  attribute access, which no call returned and which is no literal.
\<close>

theorem literal_or_handle_counterexample:
  "\<not> at_each_call (passes source_literal) [] (fst (snd (run_notebook tk_ok 0)))"
  by (simp add: run_ok schedule_def passes_def returned_def source_literal_def source_literals
      open_input_def open_output_def Types_def Cons_eq_if del: list.inject)

text \<open>
  Claim C4, amended. Every argument the notebook passes to a toolkit call is a string or
  numeric literal of its source, one of the toolkit's method-type constants
  (\<^verbatim>\<open>ROOT.TMVA.Types.kBDT\<close>, \<^verbatim>\<open>ROOT.TMVA.Types.kMLP\<close>), or a value returned by an
  earlier toolkit call, passed on as it was returned. The code applies no operator to
  any value and assigns no variable twice.
\<close>

theorem arguments_pass_through:
  assumes run: "run_notebook tk w = (res, tr, w')"
  shows "at_each_call (passes (\<lambda>v. source_literal v \<or> method_type v)) [] tr \<and>
     \<not> list_ex transforms (executed notebook) \<and>
     distinct (concat (map assigns (executed notebook)))"
proof -
  have "at_each_call (passes (\<lambda>v. source_literal v \<or> method_type v)) [] (schedule r)" for r
    by (simp add: schedule_def passes_def returned_def source_literal_def source_literals
        open_input_def open_output_def Cons_eq_if del: list.inject)
  then have "at_each_call (passes (\<lambda>v. source_literal v \<or> method_type v)) [] tr"
    by (rule run_at_each_call[OF run])
  moreover have "\<not> list_ex transforms (executed notebook)"
    by (simp add: notebook_def)
  moreover have "distinct (concat (map assigns (executed notebook)))"
    by (simp add: notebook_def)
  ultimately show ?thesis by blast
qed

theorem arguments_pass_through_witness:
  "run_notebook tk_ok 0 = (None, schedule Obj, 32) \<and>
   at_each_call (passes (\<lambda>v. source_literal v \<or> method_type v)) [] (schedule Obj)"
  using arguments_pass_through[OF run_ok] run_ok by blast

text \<open>
  Claim C5. The notebook intercepts and translates nothing: its code has no
  \<^verbatim>\<open>try\<close>/\<^verbatim>\<open>except\<close> and no conditional, and on every run an exception raised by a
  toolkit call ends the run at that call and is the run's result, unchanged. So the
  exceptions raised during a run are none when it completes, and otherwise exactly the
  one it ends with.
\<close>

theorem errors_propagate:
  assumes run: "run_notebook tk w = (res, tr, w')"
  shows "\<not> list_ex intercepts (executed notebook) \<and>
     \<not> list_ex checks (executed notebook) \<and>
     raised tr = (case res of None \<Rightarrow> [] | Some err \<Rightarrow> [err]) \<and>
     (\<forall>err. res = Some err \<longrightarrow> tr \<noteq> [] \<and> snd (last tr) = Inl err)"
  using run_raised[OF run] no_handlers no_checks by blast

theorem errors_propagate_witness:
  "fst (run_notebook (tk_null missing_file) 0) = Some (Raised ''ReferenceError'') \<and>
   raised (fst (snd (run_notebook (tk_null missing_file) 0))) = [Raised ''ReferenceError''] \<and>
   snd (last (fst (snd (run_notebook (tk_null missing_file) 0)))) = Inl (Raised ''ReferenceError'')"
  using errors_propagate[OF missing_file_run] by (simp add: missing_file_run)

text \<open>
  Claim C7. The train/test partitioning is one PrepareTrainingAndTestTree call. Among the
  calls that register variables, partition and book methods, every run makes a prefix
  of: seven AddVariable, one PrepareTrainingAndTestTree, two BookMethod; a run that
  completes makes all ten. Both cuts passed to the partitioning are objects returned by
  \<^verbatim>\<open>ROOT.TCut("")\<close>, and its option string has the settings nTrain_Signal=7000,
  nTrain_Background=7000, SplitMode=Random and NormMode=NumEvents.
\<close>

theorem partition_once:
  assumes run: "run_notebook tk w = (res, tr, w')"
  shows "prefix (partition_order tr)
           [''AddVariable'', ''AddVariable'', ''AddVariable'', ''AddVariable'', ''AddVariable'',
            ''AddVariable'', ''AddVariable'', ''PrepareTrainingAndTestTree'',
            ''BookMethod'', ''BookMethod''] \<and>
     (res = None \<longrightarrow> length (partition_order tr) = 10) \<and>
     at_each_call partition_args [] tr"
proof -
  have full: "partition_order (schedule r) =
      [''AddVariable'', ''AddVariable'', ''AddVariable'', ''AddVariable'', ''AddVariable'',
       ''AddVariable'', ''AddVariable'', ''PrepareTrainingAndTestTree'',
       ''BookMethod'', ''BookMethod'']" for r
    by (simp add: partition_order_def schedule_def open_input_def open_output_def)
  from run_view[OF run, of around_partition] obtain r where
    pre: "prefix (partition_order tr) (partition_order (schedule r))"
    and all: "res = None \<longrightarrow> tr = schedule r"
    unfolding partition_order_def by blast
  have "at_each_call partition_args [] (schedule r)" for r
    by (simp add: schedule_def returned_def open_input_def open_output_def)
  then have "at_each_call partition_args [] tr"
    by (rule run_at_each_call[OF run])
  moreover have "res = None \<longrightarrow> length (partition_order tr) = 10"
    using all by (auto simp: full)
  ultimately show ?thesis
    using pre by (simp add: full)
qed

theorem partition_once_witness:
  "run_notebook tk_ok 0 = (None, schedule Obj, 32) \<and>
   length (partition_order (schedule Obj)) = 10 \<and>
   at_each_call partition_args [] (schedule Obj)"
  using partition_once[OF run_ok] run_ok by blast







text \<open>
  Claim C10. The trees and variables registered with the data loader are, in this
  order: one signal tree and one background tree, each with weight 1.0, and the seven
  variables m_jj, m_jjj, m_lv, m_jlv, m_bb, m_wbb, m_wwbb, each by an AddVariable call
  whose only argument is a plain name. The signal tree is the object returned by
  \<^verbatim>\<open>Get("sig_tree")\<close>, the background tree the one returned by \<^verbatim>\<open>Get("bkg_tree")\<close>, and
  every registration is made on the DataLoader object. A run that an exception cuts
  short has made a prefix of these nine registrations.
\<close>

theorem registered_inputs:
  assumes run: "run_notebook tk w = (res, tr, w')"
  shows "prefix (registrations tr)
           [(''AddSignalTree'', [NumV 1]), (''AddBackgroundTree'', [NumV 1]),
            (''AddVariable'', [StrV ''m_jj'']), (''AddVariable'', [StrV ''m_jjj'']),
            (''AddVariable'', [StrV ''m_lv'']), (''AddVariable'', [StrV ''m_jlv'']),
            (''AddVariable'', [StrV ''m_bb'']), (''AddVariable'', [StrV ''m_wbb'']),
            (''AddVariable'', [StrV ''m_wwbb''])] \<and>
     (res = None \<longrightarrow> length (registrations tr) = 9) \<and>
     at_each_call tree_use [] tr \<and>
     at_each_call variable_args [] tr"
proof -
  have full: "registrations (schedule r) =
      [(''AddSignalTree'', [NumV 1]), (''AddBackgroundTree'', [NumV 1]),
       (''AddVariable'', [StrV ''m_jj'']), (''AddVariable'', [StrV ''m_jjj'']),
       (''AddVariable'', [StrV ''m_lv'']), (''AddVariable'', [StrV ''m_jlv'']),
       (''AddVariable'', [StrV ''m_bb'']), (''AddVariable'', [StrV ''m_wbb'']),
       (''AddVariable'', [StrV ''m_wwbb''])]" for r
    by (simp add: registrations_def schedule_def open_input_def open_output_def)
  from run_view[OF run, of registration] obtain r where
    pre: "prefix (registrations tr) (registrations (schedule r))"
    and all: "res = None \<longrightarrow> tr = schedule r"
    unfolding registrations_def by blast
  have "at_each_call tree_use [] (schedule r)" for r
    by (simp add: schedule_def returned_def TMVA_def open_input_def open_output_def)
  then have a: "at_each_call tree_use [] tr"
    by (rule run_at_each_call[OF run])
  have "at_each_call variable_args [] (schedule r)" for r
    by (simp add: schedule_def returned_def plain_name_def TMVA_def open_input_def
        open_output_def)
  then have b: "at_each_call variable_args [] tr"
    by (rule run_at_each_call[OF run])
  have "res = None \<longrightarrow> length (registrations tr) = 9"
    using all by (auto simp: full)
  with a b show ?thesis
    using pre by (simp add: full)
qed

theorem registered_inputs_witness:
  "run_notebook tk_ok 0 = (None, schedule Obj, 32) \<and>
   length (registrations (schedule Obj)) = 9 \<and>
   at_each_call tree_use [] (schedule Obj) \<and>
   at_each_call variable_args [] (schedule Obj)"
  using registered_inputs[OF run_ok] run_ok by blast

end
